theory Spec2Isabelle
  imports Complex_Main
begin

section \<open>JavaScript numbers\<close>

text \<open>
  The engine computes on JavaScript numbers, which are binary64 doubles.

  The statistics of an arm and the rewards are finite numbers and are modelled as reals:
  the reward update is stated on them with the source's own expressions, in the source's
  order, and the rounding of its sums and quotients is outside this model.

  Scores and budgets are values of \<open>jsnum\<close>: a finite number, one of the two infinities
  or NaN (\<^verbatim>\<open>return Infinity\<close>, \<^verbatim>\<open>isFinite(score)\<close>, a division by a zero total).
  Every arithmetic operation on them rounds its exact result to the nearest double, a tie
  to the even significand, and overflows to an infinity, as IEEE 754 prescribes; so the
  order of the operations matters, as it does in the source. The sign of a zero is not
  modelled: a zero divisor is taken as \<open>+0\<close>. \<^verbatim>\<open>Math.log\<close> is taken as correctly
  rounded (ECMAScript leaves its last bit to the implementation).
\<close>

datatype jsnum = Num real | PosInfinity | NegInfinity | NaN

text \<open>The nearest integer, a tie to the even one.\<close>

definition round_even :: "real \<Rightarrow> int" where
  "round_even x =
     (let n = \<lfloor>x\<rfloor>; d = x - of_int n
      in if d < 1 / 2 then n else if 1 / 2 < d then n + 1 else if even n then n else n + 1)"

text \<open>
  The exponent of the binade of \<open>x\<close>, held at \<open>-1022\<close> for the subnormal numbers and for
  zero; the doubles of that binade are the multiples of \<open>2 powi (exponent64 x - 52)\<close>.
\<close>

definition exponent64 :: "real \<Rightarrow> int" where
  "exponent64 x = (if x = 0 then - 1022 else max (- 1022) \<lfloor>log 2 \<bar>x\<bar>\<rfloor>)"

text \<open>The nearest multiple, with no bound on the exponent.\<close>

definition nearest64 :: "real \<Rightarrow> real" where
  "nearest64 x =
     (if x = 0 then 0
      else 2 powi (exponent64 x - 52) * of_int (round_even (x / 2 powi (exponent64 x - 52))))"

text \<open>The double nearest to a real: a result of magnitude \<open>2 ^ 1024\<close> or more is an infinity.\<close>

definition double :: "real \<Rightarrow> jsnum" where
  "double x =
     (if 2 ^ 1024 \<le> \<bar>nearest64 x\<bar> then (if 0 < x then PosInfinity else NegInfinity)
      else Num (nearest64 x))"

fun isFinite :: "jsnum \<Rightarrow> bool" where
  "isFinite (Num x) = True"
| "isFinite PosInfinity = False"
| "isFinite NegInfinity = False"
| "isFinite NaN = False"

fun js_add :: "jsnum \<Rightarrow> jsnum \<Rightarrow> jsnum" where
  "js_add (Num x) (Num y) = double (x + y)"
| "js_add (Num x) PosInfinity = PosInfinity"
| "js_add (Num x) NegInfinity = NegInfinity"
| "js_add (Num x) NaN = NaN"
| "js_add PosInfinity (Num y) = PosInfinity"
| "js_add PosInfinity PosInfinity = PosInfinity"
| "js_add PosInfinity NegInfinity = NaN"
| "js_add PosInfinity NaN = NaN"
| "js_add NegInfinity (Num y) = NegInfinity"
| "js_add NegInfinity PosInfinity = NaN"
| "js_add NegInfinity NegInfinity = NegInfinity"
| "js_add NegInfinity NaN = NaN"
| "js_add NaN y = NaN"

text \<open>The sign of a product with an infinite factor; a zero factor gives NaN.\<close>

definition js_signed_inf :: "real \<Rightarrow> jsnum" where
  "js_signed_inf s = (if 0 < s then PosInfinity else if s < 0 then NegInfinity else NaN)"

fun js_mul :: "jsnum \<Rightarrow> jsnum \<Rightarrow> jsnum" where
  "js_mul (Num x) (Num y) = double (x * y)"
| "js_mul (Num x) PosInfinity = js_signed_inf x"
| "js_mul (Num x) NegInfinity = js_signed_inf (- x)"
| "js_mul (Num x) NaN = NaN"
| "js_mul PosInfinity (Num y) = js_signed_inf y"
| "js_mul PosInfinity PosInfinity = PosInfinity"
| "js_mul PosInfinity NegInfinity = NegInfinity"
| "js_mul PosInfinity NaN = NaN"
| "js_mul NegInfinity (Num y) = js_signed_inf (- y)"
| "js_mul NegInfinity PosInfinity = NegInfinity"
| "js_mul NegInfinity NegInfinity = PosInfinity"
| "js_mul NegInfinity NaN = NaN"
| "js_mul NaN y = NaN"

fun js_div :: "jsnum \<Rightarrow> jsnum \<Rightarrow> jsnum" where
  "js_div (Num x) (Num y) = (if y = 0 then js_signed_inf x else double (x / y))"
| "js_div (Num x) PosInfinity = Num 0"
| "js_div (Num x) NegInfinity = Num 0"
| "js_div (Num x) NaN = NaN"
| "js_div PosInfinity (Num y) = (if 0 \<le> y then PosInfinity else NegInfinity)"
| "js_div PosInfinity PosInfinity = NaN"
| "js_div PosInfinity NegInfinity = NaN"
| "js_div PosInfinity NaN = NaN"
| "js_div NegInfinity (Num y) = (if 0 \<le> y then NegInfinity else PosInfinity)"
| "js_div NegInfinity PosInfinity = NaN"
| "js_div NegInfinity NegInfinity = NaN"
| "js_div NegInfinity NaN = NaN"
| "js_div NaN y = NaN"

fun Math_log :: "jsnum \<Rightarrow> jsnum" where
  "Math_log (Num x) = (if 0 < x then double (ln x) else if x = 0 then NegInfinity else NaN)"
| "Math_log PosInfinity = PosInfinity"
| "Math_log NegInfinity = NaN"
| "Math_log NaN = NaN"

fun Math_sqrt :: "jsnum \<Rightarrow> jsnum" where
  "Math_sqrt (Num x) = (if 0 \<le> x then double (sqrt x) else NaN)"
| "Math_sqrt PosInfinity = PosInfinity"
| "Math_sqrt NegInfinity = NaN"
| "Math_sqrt NaN = NaN"

text \<open>
  \<^verbatim>\<open>Math.round\<close> rounds to the nearest integer, a half towards \<open>+\<infinity>\<close>; the result is
  exact. \<^verbatim>\<open>Math.max\<close> is exact too.
\<close>

fun Math_round :: "jsnum \<Rightarrow> jsnum" where
  "Math_round (Num x) = Num (of_int \<lfloor>x + 1 / 2\<rfloor>)"
| "Math_round PosInfinity = PosInfinity"
| "Math_round NegInfinity = NegInfinity"
| "Math_round NaN = NaN"

fun Math_max :: "jsnum \<Rightarrow> jsnum \<Rightarrow> jsnum" where
  "Math_max (Num x) (Num y) = Num (max x y)"
| "Math_max (Num x) PosInfinity = PosInfinity"
| "Math_max (Num x) NegInfinity = Num x"
| "Math_max (Num x) NaN = NaN"
| "Math_max PosInfinity (Num y) = PosInfinity"
| "Math_max PosInfinity PosInfinity = PosInfinity"
| "Math_max PosInfinity NegInfinity = PosInfinity"
| "Math_max PosInfinity NaN = NaN"
| "Math_max NegInfinity (Num y) = Num y"
| "Math_max NegInfinity PosInfinity = PosInfinity"
| "Math_max NegInfinity NegInfinity = NegInfinity"
| "Math_max NegInfinity NaN = NaN"
| "Math_max NaN y = NaN"

section \<open>Types\<close>

datatype Reason = UCB1 | THOMPSON_SAMPLING | CUSUM_RESET | MINIMUM_SPEND

record AllocationDecision =
  campaignId :: string
  adSetId :: string
  allocatedBudgetPaisa :: jsnum
  ucbScore :: jsnum
  reason :: Reason

text \<open>
  \<open>pulls\<close> counts observations, from 0 in steps of 1, and is a natural number; the other
  statistics are finite numbers. \<open>ucbScore\<close> starts as \<^verbatim>\<open>Infinity\<close>.
\<close>

record MABArm =
  campaignId :: string
  adSetId :: string
  creativeId :: "string option"
  pulls :: nat
  totalReward :: real
  avgReward :: real
  ucbScore :: jsnum
  alpha :: real
  beta :: real
  cusumPositive :: real
  cusumNegative :: real
  lastUpdated :: nat

section \<open>The store and the database\<close>

datatype CampaignStatus = DRAFT | ACTIVE | PAUSED | ARCHIVED

text \<open>A campaign as the query of the cycle returns it: \<open>rowId\<close> is its \<^verbatim>\<open>id\<close>, \<open>adSets\<close>
  the ids of its ad sets.\<close>

record CampaignRow =
  rowId :: string
  userId :: string
  status :: CampaignStatus
  adSets :: "string list"

text \<open>The row that \<^verbatim>\<open>prisma.agentLog.create\<close> writes on a detection:
  campaign, ad set, reward, previous average.\<close>

datatype AgentLogRow = Cusum_change_detected string string real real

record BudgetAllocationRow =
  allocated :: jsnum
  rowUcbScore :: jsnum
  reallocationReason :: string
  triggerType :: string

text \<open>
  The state outside the engine: the Redis store of arms under their keys (the expiry of
  a key after seven days is the store's own and appears here as an absent key), and the
  three database tables the engine reads or writes.
\<close>

record world =
  redis :: "string \<rightharpoonup> MABArm"
  agentLog :: "AgentLogRow list"
  campaignTable :: "CampaignRow list"
  budgetAllocation :: "string \<times> nat \<rightharpoonup> BudgetAllocationRow"

definition mabArmKey :: "string \<Rightarrow> string \<Rightarrow> string \<Rightarrow> string" where
  "mabArmKey c a cr = ''mab:arm:'' @ c @ '':'' @ a @ '':'' @ cr"

section \<open>UCB1 score\<close>

definition EXPLORATION_CONSTANT :: real where
  "EXPLORATION_CONSTANT = 2"

definition COLD_START_THRESHOLD :: nat where
  "COLD_START_THRESHOLD = 30"

definition CUSUM_THRESHOLD :: real where
  "CUSUM_THRESHOLD = 5"

definition CUSUM_DRIFT_DELTA :: real where
  "CUSUM_DRIFT_DELTA = 1 / 2"

definition calculateUCB1 :: "MABArm \<Rightarrow> nat \<Rightarrow> jsnum" where
  "calculateUCB1 arm totalPulls =
     (if pulls arm = 0 then PosInfinity
      else js_add (Num (avgReward arm))
             (js_mul (Num EXPLORATION_CONSTANT)
                (Math_sqrt (js_div (Math_log (Num (real totalPulls))) (Num (real (pulls arm)))))))"

section \<open>CUSUM change-point detection\<close>

definition updateCUSUM :: "MABArm \<Rightarrow> real \<Rightarrow> MABArm \<times> bool" where
  "updateCUSUM arm newReward =
     (let expectedReward = avgReward arm;
          innovation = newReward - expectedReward - CUSUM_DRIFT_DELTA;
          newCusumPos = max 0 (cusumPositive arm + innovation);
          newCusumNeg = max 0 (cusumNegative arm - innovation - CUSUM_DRIFT_DELTA);
          changeDetected = (newCusumPos > CUSUM_THRESHOLD \<or> newCusumNeg > CUSUM_THRESHOLD)
      in (arm\<lparr>cusumPositive := (if changeDetected then 0 else newCusumPos),
              cusumNegative := (if changeDetected then 0 else newCusumNeg)\<rparr>,
          changeDetected))"

section \<open>Loading and saving an arm\<close>

text \<open>\<open>now\<close> is the reading of \<^verbatim>\<open>Date.now()\<close>.\<close>

definition loadArm :: "world \<Rightarrow> string \<Rightarrow> string \<Rightarrow> nat \<Rightarrow> MABArm" where
  "loadArm w c a now =
     (case redis w (mabArmKey c a ''combined'') of
        Some data \<Rightarrow> data
      | None \<Rightarrow>
          \<lparr>MABArm.campaignId = c, adSetId = a, creativeId = None, pulls = 0, totalReward = 0,
           avgReward = 0, ucbScore = PosInfinity, alpha = 1, beta = 1,
           cusumPositive = 0, cusumNegative = 0, lastUpdated = now\<rparr>)"

definition saveArm :: "world \<Rightarrow> MABArm \<Rightarrow> world" where
  "saveArm w arm =
     w\<lparr>redis := (redis w)(mabArmKey (MABArm.campaignId arm) (MABArm.adSetId arm) ''combined'' \<mapsto> arm)\<rparr>"

section \<open>Reward update\<close>

definition updateArmReward :: "world \<Rightarrow> string \<Rightarrow> string \<Rightarrow> real \<Rightarrow> nat \<Rightarrow> world" where
  "updateArmReward w c a roasReward now =
     (let arm = loadArm w c a now;
          (armAfterCusum, changeDetected) = updateCUSUM arm roasReward;
          w1 = (if changeDetected
                then w\<lparr>agentLog := agentLog w @ [Cusum_change_detected c a roasReward (avgReward arm)]\<rparr>
                else w);
          newPulls = pulls armAfterCusum + 1;
          newTotal = totalReward armAfterCusum + roasReward;
          newAvg = newTotal / real newPulls;
          isSuccess = (roasReward \<ge> 2);
          updatedArm = armAfterCusum\<lparr>pulls := newPulls, totalReward := newTotal,
             avgReward := newAvg,
             alpha := alpha armAfterCusum + (if isSuccess then 1 else 0),
             beta := beta armAfterCusum + (if isSuccess then 0 else 1),
             lastUpdated := now\<rparr>
      in saveArm w1 updatedArm)"

section \<open>Allocation cycle\<close>

text \<open>
  \<^verbatim>\<open>thompsonSample\<close> draws from \<^verbatim>\<open>Math.random\<close>. The model takes the outcome
  of the draws as an input: \<open>thompsonSample i\<close> is the number that the call for the arm
  at position \<open>i\<close> of the arm list returns. Any sequence of outcomes is an input.
\<close>

definition scoreArm :: "(nat \<Rightarrow> jsnum) \<Rightarrow> nat \<Rightarrow> nat \<times> MABArm \<Rightarrow> MABArm \<times> jsnum \<times> Reason" where
  "scoreArm thompsonSample totalPulls ia =
     (let i = fst ia; arm = snd ia
      in if pulls arm < COLD_START_THRESHOLD
         then (arm, thompsonSample i, THOMPSON_SAMPLING)
         else (arm, calculateUCB1 arm totalPulls, UCB1))"

definition scoreArms :: "(nat \<Rightarrow> jsnum) \<Rightarrow> MABArm list \<Rightarrow> (MABArm \<times> jsnum \<times> Reason) list" where
  "scoreArms thompsonSample arms =
     (let totalPulls = foldl (\<lambda>s a. s + pulls a) 0 arms
      in map (scoreArm thompsonSample totalPulls) (enumerate 0 arms))"

definition normalizedScore :: "jsnum \<Rightarrow> jsnum" where
  "normalizedScore score = (if isFinite score then score else Num 2)"

definition totalScore :: "(MABArm \<times> jsnum \<times> Reason) list \<Rightarrow> jsnum" where
  "totalScore scoredArms =
     foldl (\<lambda>s a. js_add s (normalizedScore (fst (snd a)))) (Num 0) scoredArms"

definition MIN_BUDGET_PAISA :: real where
  "MIN_BUDGET_PAISA = 10000 * 100"

definition decide :: "real \<Rightarrow> jsnum \<Rightarrow> MABArm \<times> jsnum \<times> Reason \<Rightarrow> AllocationDecision" where
  "decide totalDailyBudgetPaisa sumOfScores a =
     (let arm = fst a; score = fst (snd a); reason = snd (snd a);
          proportion = js_div (normalizedScore score) sumOfScores;
          rawBudget = Math_round (js_mul (Num totalDailyBudgetPaisa) proportion);
          allocatedBudget = Math_max rawBudget (Num MIN_BUDGET_PAISA)
      in \<lparr>AllocationDecision.campaignId = MABArm.campaignId arm,
          adSetId = MABArm.adSetId arm,
          allocatedBudgetPaisa = allocatedBudget,
          ucbScore = score,
          reason = reason\<rparr>)"

definition decisions :: "real \<Rightarrow> (MABArm \<times> jsnum \<times> Reason) list \<Rightarrow> AllocationDecision list" where
  "decisions totalDailyBudgetPaisa scoredArms =
     map (decide totalDailyBudgetPaisa (totalScore scoredArms)) scoredArms"

text \<open>\<^verbatim>\<open>arms.find\<close>: the position of the first arm that satisfies the test.\<close>

fun findIndex :: "('a \<Rightarrow> bool) \<Rightarrow> 'a list \<Rightarrow> nat option" where
  "findIndex P [] = None"
| "findIndex P (x # xs) =
     (if P x then Some 0 else map_option Suc (findIndex P xs))"

fun reasonName :: "Reason \<Rightarrow> string" where
  "reasonName UCB1 = ''UCB1''"
| "reasonName THOMPSON_SAMPLING = ''THOMPSON_SAMPLING''"
| "reasonName CUSUM_RESET = ''CUSUM_RESET''"
| "reasonName MINIMUM_SPEND = ''MINIMUM_SPEND''"

text \<open>
  The loop that writes the scores back. The arms are objects shared with the arm list,
  so the list is part of the loop's state: a later decision finds the arm as the earlier
  ones left it. \<open>today\<close> is the date of the run. Both branches of the upsert write the
  same columns.
\<close>

fun persist :: "world \<times> MABArm list \<Rightarrow> nat \<Rightarrow> AllocationDecision list \<Rightarrow> world \<times> MABArm list" where
  "persist (w, arms) today [] = (w, arms)"
| "persist (w, arms) today (decision # ds) =
     (case findIndex (\<lambda>a. MABArm.campaignId a = AllocationDecision.campaignId decision
                          \<and> MABArm.adSetId a = AllocationDecision.adSetId decision) arms of
        None \<Rightarrow> persist (w, arms) today ds
      | Some j \<Rightarrow>
          (let arm = (arms ! j)\<lparr>MABArm.ucbScore := AllocationDecision.ucbScore decision\<rparr>;
               w1 = saveArm w arm;
               row = \<lparr>allocated = allocatedBudgetPaisa decision,
                      rowUcbScore = (if isFinite (AllocationDecision.ucbScore decision)
                                     then AllocationDecision.ucbScore decision else Num 99),
                      reallocationReason = ''MAB('' @ reasonName (reason decision) @ '')'',
                      triggerType = ''UCB_SCHEDULED''\<rparr>;
               w2 = w1\<lparr>budgetAllocation :=
                         (budgetAllocation w1)((AllocationDecision.campaignId decision, today) \<mapsto> row)\<rparr>
           in persist (w2, arms[j := arm]) today ds))"

definition loadArms :: "world \<Rightarrow> CampaignRow list \<Rightarrow> nat \<Rightarrow> MABArm list" where
  "loadArms w campaigns now =
     concat (map (\<lambda>campaign. map (\<lambda>adSet. loadArm w (rowId campaign) adSet now) (adSets campaign))
               campaigns)"

definition runMABAllocation ::
  "world \<Rightarrow> string \<Rightarrow> real \<Rightarrow> (nat \<Rightarrow> jsnum) \<Rightarrow> nat \<Rightarrow> nat \<Rightarrow> AllocationDecision list \<times> world" where
  "runMABAllocation w user totalDailyBudgetPaisa thompsonSample now today =
     (let campaigns = filter (\<lambda>c. userId c = user \<and> status c = ACTIVE) (campaignTable w)
      in if campaigns = [] then ([], w)
         else
           (let arms = loadArms w campaigns now
            in if arms = [] then ([], w)
               else
                 (let scoredArms = scoreArms thompsonSample arms;
                      ds = decisions totalDailyBudgetPaisa scoredArms
                  in (ds, fst (persist (w, arms) today ds)))))"

section \<open>Sequences of calls and sample states\<close>

text \<open>
  A sequence of reward updates, each with its campaign, ad set, reward and clock reading,
  applied in order.
\<close>

fun updateArmRewards :: "world \<Rightarrow> (string \<times> string \<times> real \<times> nat) list \<Rightarrow> world" where
  "updateArmRewards w [] = w"
| "updateArmRewards w ((c, a, r, now) # calls) = updateArmRewards (updateArmReward w c a r now) calls"

text \<open>A state with no stored arm, an empty log and empty tables.\<close>

definition emptyWorld :: world where
  "emptyWorld = \<lparr>redis = Map.empty, agentLog = [], campaignTable = [], budgetAllocation = Map.empty\<rparr>"

text \<open>A warm arm: 40 observations, average reward 2.\<close>

definition sampleArm :: MABArm where
  "sampleArm = \<lparr>MABArm.campaignId = ''c1'', adSetId = ''s1'', creativeId = None, pulls = 40,
      totalReward = 80, avgReward = 2, ucbScore = PosInfinity, alpha = 31, beta = 11,
      cusumPositive = 0, cusumNegative = 0, lastUpdated = 0\<rparr>"

text \<open>A state with one active campaign of user \<open>u1\<close> with two ad sets and no stored arm.\<close>

definition demoWorld :: world where
  "demoWorld = \<lparr>redis = Map.empty, agentLog = [],
      campaignTable = [\<lparr>rowId = ''c1'', userId = ''u1'', status = ACTIVE, adSets = [''s1'', ''s2'']\<rparr>],
      budgetAllocation = Map.empty\<rparr>"

text \<open>
  The same campaign with the warm arm stored for its first ad set and nothing for the
  second, and a paused campaign of the same user.
\<close>

definition mixedWorld :: world where
  "mixedWorld = \<lparr>redis = [mabArmKey ''c1'' ''s1'' ''combined'' \<mapsto> sampleArm], agentLog = [],
      campaignTable = [\<lparr>rowId = ''c1'', userId = ''u1'', status = ACTIVE, adSets = [''s1'', ''s2'']\<rparr>,
                       \<lparr>rowId = ''c2'', userId = ''u1'', status = PAUSED, adSets = [''s3'']\<rparr>],
      budgetAllocation = Map.empty\<rparr>"

text \<open>Thompson draws that all come out as one half.\<close>

definition halfSamples :: "nat \<Rightarrow> jsnum" where
  "halfSamples i = Num (1 / 2)"

text \<open>Thompson draws of seven eighths for the first arm and three eighths for the others.\<close>

definition unevenSamples :: "nat \<Rightarrow> jsnum" where
  "unevenSamples i = (if i = 0 then Num (7 / 8) else Num (3 / 8))"

section \<open>Facts about the rounding\<close>

lemma round_even_of_int [simp]: "round_even (of_int n) = n"
  by (simp add: round_even_def)

lemma round_even_error: "\<bar>of_int (round_even x) - x\<bar> \<le> 1 / 2"
  unfolding round_even_def Let_def by (auto; linarith)

lemma round_even_mono:
  assumes "x \<le> y"
  shows "round_even x \<le> round_even y"
proof (rule ccontr)
  assume "\<not> round_even x \<le> round_even y"
  then have gt: "round_even y + 1 \<le> round_even x" by simp
  have ex: "\<bar>of_int (round_even x) - x\<bar> \<le> 1 / 2" and ey: "\<bar>of_int (round_even y) - y\<bar> \<le> 1 / 2"
    by (rule round_even_error)+
  have r: "of_int (round_even y) + 1 \<le> (of_int (round_even x) :: real)"
    using gt by (metis of_int_1 of_int_add of_int_le_iff)
  then have xy: "x = y" and hx: "of_int (round_even x) = x + 1 / 2" and hy: "of_int (round_even y) = y - 1 / 2"
    using ex ey assms by linarith+
  have fx: "\<lfloor>x\<rfloor> = round_even x - 1"
    using hx by linarith
  have dx: "x - of_int \<lfloor>x\<rfloor> = 1 / 2"
    using hx fx by simp
  have "round_even x = (if even \<lfloor>x\<rfloor> then \<lfloor>x\<rfloor> else \<lfloor>x\<rfloor> + 1)"
    using dx by (simp add: round_even_def Let_def)
  with fx have oddf: "odd \<lfloor>x\<rfloor>" by (auto split: if_splits)
  have "round_even y = (if even \<lfloor>x\<rfloor> then \<lfloor>x\<rfloor> else \<lfloor>x\<rfloor> + 1)"
    using dx xy by (simp add: round_even_def Let_def)
  with oddf have "round_even y = \<lfloor>x\<rfloor> + 1" by simp
  with fx gt show False by simp
qed

lemma round_even_minus: "round_even (- x) = - round_even x"
proof (cases "x \<in> \<int>")
  case True
  then obtain n where "x = of_int n" by (auto elim: Ints_cases)
  then show ?thesis by (metis of_int_minus round_even_of_int)
next
  case False
  then have f: "\<lfloor>- x\<rfloor> = - \<lfloor>x\<rfloor> - 1"
    by (metis ceiling_def floor_minus Ints_of_int ceiling_altdef add.commute diff_minus_eq_add minus_diff_eq of_int_floor_cancel uminus_add_conv_diff)
  have fr: "of_int \<lfloor>x\<rfloor> < x" using False by (metis Ints_of_int of_int_floor_le order_less_le)
  show ?thesis
    unfolding round_even_def Let_def f using fr by (auto; linarith?)
qed

lemma powi_pos [simp]: "0 < (2::real) powi e"
  by (simp add: zero_less_power_int)

lemma powi_mono: "a \<le> b \<Longrightarrow> (2::real) powi a \<le> 2 powi b"
  by (simp add: power_int_increasing)

lemma powi_split: "(2::real) powi (a + b) = 2 powi a * 2 powi b"
  by (simp add: power_int_add)

lemma log2_powi: "log 2 (2 powi e) = of_int e"
  by (simp add: powr_real_of_int power_int_def log_def ln_realpow ln_inverse power_inverse ln_div)

lemma floor_log2_eq:
  assumes "2 powi e \<le> x" and "x < 2 powi (e + 1)"
  shows "\<lfloor>log 2 x\<rfloor> = e"
proof -
  have pos: "0 < x" using assms(1) powi_pos [of e] by linarith
  have "log 2 (2 powi e) \<le> log 2 x" using assms(1) pos by simp
  moreover have "log 2 x < log 2 (2 powi (e + 1))" using assms(2) pos by simp
  ultimately have "of_int e \<le> log 2 x" "log 2 x < of_int e + 1"
    by (simp_all add: log2_powi)
  then show ?thesis by linarith
qed

lemma floor_log2_bounds:
  assumes "0 < x"
  shows "2 powi \<lfloor>log 2 x\<rfloor> \<le> x" and "x < 2 powi (\<lfloor>log 2 x\<rfloor> + 1)"
proof -
  have "log 2 (2 powi \<lfloor>log 2 x\<rfloor>) \<le> log 2 x"
    by (simp add: log2_powi)
  then show "2 powi \<lfloor>log 2 x\<rfloor> \<le> x" using assms by simp
  have "log 2 x < log 2 (2 powi (\<lfloor>log 2 x\<rfloor> + 1))"
    unfolding log2_powi by linarith
  then show "x < 2 powi (\<lfloor>log 2 x\<rfloor> + 1)" using assms by simp
qed

lemma exponent64_eq:
  assumes "- 1022 \<le> e" and "2 powi e \<le> \<bar>x\<bar>" and "\<bar>x\<bar> < 2 powi (e + 1)"
  shows "exponent64 x = e"
proof -
  have "0 < \<bar>x\<bar>" using assms(2) powi_pos [of e] by (rule less_le_trans [rotated])
  then have "x \<noteq> 0" by simp
  then show ?thesis
    using floor_log2_eq [OF assms(2,3)] assms(1) by (simp add: exponent64_def)
qed

lemma exponent64_subnormal:
  assumes "\<bar>x\<bar> < 2 powi (- 1022)"
  shows "exponent64 x = - 1022"
proof (cases "x = 0")
  case True
  then show ?thesis by (simp add: exponent64_def)
next
  case False
  then have pos: "0 < \<bar>x\<bar>" by simp
  have "\<lfloor>log 2 \<bar>x\<bar>\<rfloor> < - 1022"
  proof (rule ccontr)
    assume "\<not> \<lfloor>log 2 \<bar>x\<bar>\<rfloor> < - 1022"
    then have "(2::real) powi (- 1022) \<le> 2 powi \<lfloor>log 2 \<bar>x\<bar>\<rfloor>" by (intro powi_mono) simp
    also have "\<dots> \<le> \<bar>x\<bar>" using floor_log2_bounds(1) [OF pos] .
    finally show False using assms by simp
  qed
  then show ?thesis using False by (simp add: exponent64_def)
qed

lemma exponent64_ge: "- 1022 \<le> exponent64 x"
  by (simp add: exponent64_def)

lemma exponent64_upper: "\<bar>x\<bar> < 2 powi (exponent64 x + 1)"
proof (cases "x = 0")
  case True
  then show ?thesis by simp
next
  case False
  then have pos: "0 < \<bar>x\<bar>" by simp
  have "\<bar>x\<bar> < 2 powi (\<lfloor>log 2 \<bar>x\<bar>\<rfloor> + 1)" using floor_log2_bounds(2) [OF pos] .
  also have "\<dots> \<le> 2 powi (exponent64 x + 1)"
    using False by (intro powi_mono) (simp add: exponent64_def)
  finally show ?thesis .
qed

lemma exponent64_lower:
  assumes "- 1022 < exponent64 x"
  shows "2 powi exponent64 x \<le> \<bar>x\<bar>"
proof -
  have e: "exponent64 x = \<lfloor>log 2 \<bar>x\<bar>\<rfloor>" using assms by (simp add: exponent64_def max_def split: if_splits)
  have nz: "x \<noteq> 0" using assms by (auto simp add: exponent64_def)
  then have "0 < \<bar>x\<bar>" by simp
  from floor_log2_bounds(1) [OF this] e nz show ?thesis by simp
qed


lemma exponent64_minus [simp]: "exponent64 (- x) = exponent64 x"
  by (simp add: exponent64_def)

lemma nearest64_minus: "nearest64 (- x) = - nearest64 x"
  by (simp add: nearest64_def round_even_minus)

lemma nearest64_eval:
  assumes "- 1022 \<le> e" and "2 powi e \<le> \<bar>x\<bar>" and "\<bar>x\<bar> < 2 powi (e + 1)"
  shows "nearest64 x = 2 powi (e - 52) * of_int (round_even (x / 2 powi (e - 52)))"
proof -
  have "0 < \<bar>x\<bar>" using assms(2) powi_pos [of e] by (rule less_le_trans [rotated])
  then have "x \<noteq> 0" by simp
  then show ?thesis by (simp add: nearest64_def exponent64_eq [OF assms])
qed

lemma nearest64_error: "\<bar>nearest64 x - x\<bar> \<le> 2 powi (exponent64 x - 52) / 2"
proof (cases "x = 0")
  case True
  then show ?thesis by (simp add: nearest64_def)
next
  case False
  let ?u = "(2::real) powi (exponent64 x - 52)"
  have u: "0 < ?u" by simp
  have "\<bar>of_int (round_even (x / ?u)) - x / ?u\<bar> \<le> 1 / 2" by (rule round_even_error)
  then have "?u * \<bar>of_int (round_even (x / ?u)) - x / ?u\<bar> \<le> ?u * (1 / 2)"
    using u by (intro mult_left_mono) simp_all
  moreover have "?u * \<bar>of_int (round_even (x / ?u)) - x / ?u\<bar> = \<bar>?u * of_int (round_even (x / ?u)) - x\<bar>"
  proof -
    have "?u * \<bar>of_int (round_even (x / ?u)) - x / ?u\<bar> = \<bar>?u * (of_int (round_even (x / ?u)) - x / ?u)\<bar>"
      using u by (simp add: abs_mult)
    also have "?u * (of_int (round_even (x / ?u)) - x / ?u) = ?u * of_int (round_even (x / ?u)) - x"
      using u by (simp add: right_diff_distrib)
    finally show ?thesis .
  qed
  ultimately show ?thesis using False by (simp add: nearest64_def)
qed

lemma nearest64_relative:
  assumes "2 powi (- 1022) \<le> \<bar>x\<bar>"
  shows "\<bar>nearest64 x - x\<bar> \<le> \<bar>x\<bar> / 2 ^ 53"
proof -
  have nz: "x \<noteq> 0" using assms powi_pos [of "- 1022"] by auto
  have lo: "2 powi exponent64 x \<le> \<bar>x\<bar>"
  proof (cases "- 1022 < exponent64 x")
    case True
    then show ?thesis by (rule exponent64_lower)
  next
    case False
    then have "exponent64 x = - 1022" using exponent64_ge [of x] by linarith
    with assms show ?thesis by simp
  qed
  have "(2::real) powi (exponent64 x - 52) / 2 = 2 powi exponent64 x / 2 ^ 53"
    by (simp add: power_int_diff)
  also have "\<dots> \<le> \<bar>x\<bar> / 2 ^ 53" using lo by (simp add: divide_right_mono)
  finally show ?thesis using nearest64_error [of x] by linarith
qed

lemma nearest64_nonneg: "0 \<le> x \<Longrightarrow> 0 \<le> nearest64 x"
proof -
  assume x: "0 \<le> x"
  have "0 \<le> x / 2 powi (exponent64 x - 52)" using x by simp
  then have "round_even 0 \<le> round_even (x / 2 powi (exponent64 x - 52))" by (rule round_even_mono)
  then have "0 \<le> round_even (x / 2 powi (exponent64 x - 52))" by (simp add: round_even_def)
  then show ?thesis by (simp add: nearest64_def)
qed

lemma nearest64_le_top:
  assumes "0 < x"
  shows "nearest64 x \<le> 2 powi (exponent64 x + 1)"
proof -
  let ?u = "(2::real) powi (exponent64 x - 52)"
  have "x < 2 powi (exponent64 x + 1)" using exponent64_upper [of x] assms by simp
  then have "x / ?u \<le> 2 powi (exponent64 x + 1) / ?u" by (simp add: divide_right_mono)
  also have "2 powi (exponent64 x + 1) / ?u = of_int (2 ^ 53)"
    by (simp add: power_int_diff [symmetric])
  finally have "round_even (x / ?u) \<le> round_even (of_int (2 ^ 53))" by (rule round_even_mono)
  then have "of_int (round_even (x / ?u)) \<le> (2 ^ 53 :: real)"
    by (metis of_int_le_iff of_int_numeral of_int_power round_even_of_int)
  then have "?u * of_int (round_even (x / ?u)) \<le> ?u * 2 ^ 53"
    by (intro mult_left_mono) simp_all
  also have "?u * 2 ^ 53 = 2 powi (exponent64 x + 1)"
    using powi_split [of "exponent64 x - 52" 53] by (simp add: add.commute)
  finally show ?thesis using assms by (simp add: nearest64_def)
qed




lemma nearest64_abs_le: "\<bar>nearest64 x\<bar> \<le> 2 powi (exponent64 x + 1)"
proof -
  consider "0 < x" | "x = 0" | "x < 0" by linarith
  then show ?thesis
  proof cases
    case 1
    then show ?thesis using nearest64_le_top [of x] nearest64_nonneg [of x] by simp
  next
    case 2
    then show ?thesis by (simp add: nearest64_def less_imp_le)
  next
    case 3
    then show ?thesis
      using nearest64_le_top [of "- x"] nearest64_nonneg [of "- x"] by (simp add: nearest64_minus)
  qed
qed

lemma double_finite:
  assumes "\<bar>x\<bar> < 2 ^ 1023"
  shows "double x = Num (nearest64 x)"
proof -
  have "exponent64 x \<le> 1022"
  proof (rule ccontr)
    assume "\<not> exponent64 x \<le> 1022"
    then have big: "1023 \<le> exponent64 x" by simp
    then have "- 1022 < exponent64 x" by simp
    then have "2 powi exponent64 x \<le> \<bar>x\<bar>" by (rule exponent64_lower)
    moreover have "(2::real) powi 1023 \<le> 2 powi exponent64 x" using big by (rule powi_mono)
    ultimately show False using assms by simp
  qed
  then have "(2::real) powi (exponent64 x + 1) \<le> 2 powi 1023" by (intro powi_mono) simp
  then have "\<bar>nearest64 x\<bar> \<le> 2 ^ 1023" using nearest64_abs_le [of x] by simp
  moreover have "(2::real) ^ 1023 < 2 ^ 1024" by simp
  ultimately show ?thesis by (simp add: double_def)
qed

lemma double_eval:
  assumes "- 1022 \<le> e" and "e \<le> 1022" and "2 powi e \<le> \<bar>x\<bar>" and "\<bar>x\<bar> < 2 powi (e + 1)"
  shows "double x = Num (2 powi (e - 52) * of_int (round_even (x / 2 powi (e - 52))))"
proof -
  have "(2::real) powi (e + 1) \<le> 2 powi 1023" using assms(2) by (intro powi_mono) simp
  then have "\<bar>x\<bar> < 2 ^ 1023" using assms(4) by simp
  then show ?thesis using nearest64_eval [OF assms(1,3,4)] by (simp add: double_finite)
qed

section \<open>Facts about the reward update\<close>

lemma updateCUSUM_fst:
  "fst (updateCUSUM arm r) =
     arm\<lparr>cusumPositive := (if snd (updateCUSUM arm r) then 0
                             else max 0 (cusumPositive arm + (r - avgReward arm - 1 / 2))),
         cusumNegative := (if snd (updateCUSUM arm r) then 0
                             else max 0 (cusumNegative arm - (r - avgReward arm - 1 / 2) - 1 / 2))\<rparr>"
  by (simp add: updateCUSUM_def Let_def CUSUM_DRIFT_DELTA_def)

lemma updateCUSUM_snd:
  "snd (updateCUSUM arm r) =
     (5 < max 0 (cusumPositive arm + (r - avgReward arm - 1 / 2))
      \<or> 5 < max 0 (cusumNegative arm - (r - avgReward arm - 1 / 2) - 1 / 2))"
  by (simp add: updateCUSUM_def Let_def CUSUM_DRIFT_DELTA_def CUSUM_THRESHOLD_def)

lemma updateArmReward_unfold:
  "updateArmReward w c a r now =
     saveArm (if snd (updateCUSUM (loadArm w c a now) r)
              then w\<lparr>agentLog := agentLog w @ [Cusum_change_detected c a r (avgReward (loadArm w c a now))]\<rparr>
              else w)
       ((fst (updateCUSUM (loadArm w c a now) r))
          \<lparr>pulls := pulls (loadArm w c a now) + 1,
           totalReward := totalReward (loadArm w c a now) + r,
           avgReward := (totalReward (loadArm w c a now) + r) / real (pulls (loadArm w c a now) + 1),
           alpha := alpha (loadArm w c a now) + (if 2 \<le> r then 1 else 0),
           beta := beta (loadArm w c a now) + (if 2 \<le> r then 0 else 1),
           lastUpdated := now\<rparr>)"
  by (simp add: updateArmReward_def Let_def split_beta updateCUSUM_fst)

lemma redis_saveArm:
  "redis (saveArm w arm) =
     (redis w)(mabArmKey (MABArm.campaignId arm) (MABArm.adSetId arm) ''combined'' \<mapsto> arm)"
  by (simp add: saveArm_def)

lemma agentLog_saveArm: "agentLog (saveArm w arm) = agentLog w"
  by (simp add: saveArm_def)

lemma updateCUSUM_ids:
  "MABArm.campaignId (fst (updateCUSUM arm r)) = MABArm.campaignId arm"
  "MABArm.adSetId (fst (updateCUSUM arm r)) = MABArm.adSetId arm"
  by (simp_all add: updateCUSUM_fst)

lemma redis_updateArmReward:
  "redis (updateArmReward w c a r now) =
     (redis w)(mabArmKey (MABArm.campaignId (loadArm w c a now)) (MABArm.adSetId (loadArm w c a now)) ''combined'' \<mapsto>
       (fst (updateCUSUM (loadArm w c a now) r))
          \<lparr>pulls := pulls (loadArm w c a now) + 1,
           totalReward := totalReward (loadArm w c a now) + r,
           avgReward := (totalReward (loadArm w c a now) + r) / real (pulls (loadArm w c a now) + 1),
           alpha := alpha (loadArm w c a now) + (if 2 \<le> r then 1 else 0),
           beta := beta (loadArm w c a now) + (if 2 \<le> r then 0 else 1),
           lastUpdated := now\<rparr>)"
  by (simp add: updateArmReward_unfold redis_saveArm updateCUSUM_ids)

lemma agentLog_updateArmReward:
  "agentLog (updateArmReward w c a r now) =
     (if snd (updateCUSUM (loadArm w c a now) r)
      then agentLog w @ [Cusum_change_detected c a r (avgReward (loadArm w c a now))]
      else agentLog w)"
  by (simp add: updateArmReward_unfold agentLog_saveArm)

lemma loadArm_absent:
  "redis w (mabArmKey c a ''combined'') = None \<Longrightarrow>
   loadArm w c a now =
     \<lparr>MABArm.campaignId = c, adSetId = a, creativeId = None, pulls = 0, totalReward = 0,
      avgReward = 0, ucbScore = PosInfinity, alpha = 1, beta = 1,
      cusumPositive = 0, cusumNegative = 0, lastUpdated = now\<rparr>"
  by (simp add: loadArm_def)

lemma loadArm_cases:
  "(\<exists>k. redis w k = Some (loadArm w c a now)) \<or>
   loadArm w c a now =
     \<lparr>MABArm.campaignId = c, adSetId = a, creativeId = None, pulls = 0, totalReward = 0,
      avgReward = 0, ucbScore = PosInfinity, alpha = 1, beta = 1,
      cusumPositive = 0, cusumNegative = 0, lastUpdated = now\<rparr>"
  by (auto simp add: loadArm_def split: option.splits)

lemma updateArmReward_invariant:
  assumes stored: "\<And>k arm. redis w k = Some arm \<Longrightarrow> P arm"
    and fresh: "P \<lparr>MABArm.campaignId = c, adSetId = a, creativeId = None, pulls = 0, totalReward = 0,
      avgReward = 0, ucbScore = PosInfinity, alpha = 1, beta = 1,
      cusumPositive = 0, cusumNegative = 0, lastUpdated = now\<rparr>"
    and step: "\<And>arm. P arm \<Longrightarrow>
      P ((fst (updateCUSUM arm r))\<lparr>pulls := pulls arm + 1, totalReward := totalReward arm + r,
           avgReward := (totalReward arm + r) / real (pulls arm + 1),
           alpha := alpha arm + (if 2 \<le> r then 1 else 0),
           beta := beta arm + (if 2 \<le> r then 0 else 1),
           lastUpdated := now\<rparr>)"
    and after: "redis (updateArmReward w c a r now) k = Some arm'"
  shows "P arm'"
proof -
  have loaded: "P (loadArm w c a now)"
    using loadArm_cases [of w c a now] stored fresh by auto
  show ?thesis
  proof (cases "k = mabArmKey (MABArm.campaignId (loadArm w c a now)) (MABArm.adSetId (loadArm w c a now)) ''combined''")
    case True
    with after step [OF loaded] show ?thesis
      by (simp add: redis_updateArmReward)
  next
    case False
    with after stored show ?thesis
      by (simp add: redis_updateArmReward)
  qed
qed

lemma updateArmRewards_invariant:
  assumes stored: "\<And>k arm. redis w k = Some arm \<Longrightarrow> P arm"
    and fresh: "\<And>c a now. P \<lparr>MABArm.campaignId = c, adSetId = a, creativeId = None, pulls = 0,
      totalReward = 0, avgReward = 0, ucbScore = PosInfinity, alpha = 1, beta = 1,
      cusumPositive = 0, cusumNegative = 0, lastUpdated = now\<rparr>"
    and step: "\<And>arm r now. P arm \<Longrightarrow> Q r \<Longrightarrow>
      P ((fst (updateCUSUM arm r))\<lparr>pulls := pulls arm + 1, totalReward := totalReward arm + r,
           avgReward := (totalReward arm + r) / real (pulls arm + 1),
           alpha := alpha arm + (if 2 \<le> r then 1 else 0),
           beta := beta arm + (if 2 \<le> r then 0 else 1),
           lastUpdated := now\<rparr>)"
    and rewards: "\<forall>(c, a, r, now)\<in>set calls. Q r"
    and after: "redis (updateArmRewards w calls) k = Some arm'"
  shows "P arm'"
  using stored rewards after
proof (induction w calls rule: updateArmRewards.induct)
  case (1 w)
  then show ?case by simp
next
  case (2 w c a r now calls)
  have q: "Q r" using "2.prems"(2) by simp
  show ?case
  proof (rule "2.IH")
    fix k' arm
    assume "redis (updateArmReward w c a r now) k' = Some arm"
    then show "P arm"
      using updateArmReward_invariant [of w P c a now r k' arm] "2.prems"(1) fresh step q
      by blast
  next
    show "\<forall>(c, a, r, now)\<in>set calls. Q r" using "2.prems"(2) by simp
  next
    show "redis (updateArmRewards (updateArmReward w c a r now) calls) k = Some arm'"
      using "2.prems"(3) by simp
  qed
qed

lemma loadArm_invariant:
  assumes "\<And>k arm. redis w k = Some arm \<Longrightarrow> P arm"
    and "P \<lparr>MABArm.campaignId = c, adSetId = a, creativeId = None, pulls = 0,
      totalReward = 0, avgReward = 0, ucbScore = PosInfinity, alpha = 1, beta = 1,
      cusumPositive = 0, cusumNegative = 0, lastUpdated = now\<rparr>"
  shows "P (loadArm w c a now)"
  using loadArm_cases [of w c a now] assms by auto

section \<open>The CUSUM detector inside the reward update\<close>


text \<open>
  C7. The arm that \<open>updateArmReward\<close> saves is the loaded arm with the reward folded into
  \<open>pulls\<close>, \<open>totalReward\<close>, \<open>avgReward\<close>, \<open>alpha\<close> and \<open>beta\<close> by formulas that do not
  depend on the detection; a detection only decides whether the two accumulators are
  saved as 0 or as the detector's new values. Every other field is the loaded one.
\<close>

theorem updateArmReward_detection_frame:
  fixes w :: world and c a :: string and r :: real and now :: nat
  defines "arm \<equiv> loadArm w c a now"
  defines "folded \<equiv> arm\<lparr>pulls := pulls arm + 1,
             totalReward := totalReward arm + r,
             avgReward := (totalReward arm + r) / real (pulls arm + 1),
             alpha := alpha arm + (if 2 \<le> r then 1 else 0),
             beta := beta arm + (if 2 \<le> r then 0 else 1),
             lastUpdated := now\<rparr>"
  shows "redis (updateArmReward w c a r now)
           (mabArmKey (MABArm.campaignId arm) (MABArm.adSetId arm) ''combined'') =
         Some (if snd (updateCUSUM arm r)
               then folded\<lparr>cusumPositive := 0, cusumNegative := 0\<rparr>
               else folded\<lparr>cusumPositive := cusumPositive (fst (updateCUSUM arm r)),
                           cusumNegative := cusumNegative (fst (updateCUSUM arm r))\<rparr>)"
  unfolding arm_def folded_def redis_updateArmReward
  by (simp add: updateCUSUM_fst)

section \<open>The first observation of an arm\<close>

text \<open>
  C3 (as the code has it). When no arm is stored under the key, one call with reward 3
  stores an arm with \<open>pulls = 1\<close>, \<open>avgReward = 3\<close>, \<open>alpha = 2\<close>, \<open>beta = 1\<close>,
  \<open>cusumNegative = 0\<close> and \<open>cusumPositive = 2.5\<close>: the detector adds
  \<open>3 - 0 - 0.5\<close> to the positive accumulator.
\<close>

theorem first_reward_three:
  "redis w (mabArmKey c a ''combined'') = None \<Longrightarrow>
   redis (updateArmReward w c a 3 now) (mabArmKey c a ''combined'') =
     Some \<lparr>MABArm.campaignId = c, adSetId = a, creativeId = None, pulls = 1, totalReward = 3,
           avgReward = 3, ucbScore = PosInfinity, alpha = 2, beta = 1,
           cusumPositive = 5 / 2, cusumNegative = 0, lastUpdated = now\<rparr>"
  by (simp add: redis_updateArmReward loadArm_absent updateCUSUM_fst updateCUSUM_snd)

theorem first_reward_three_witness:
  "redis emptyWorld (mabArmKey ''c1'' ''s1'' ''combined'') = None \<and>
   redis (updateArmReward emptyWorld ''c1'' ''s1'' 3 7) (mabArmKey ''c1'' ''s1'' ''combined'') =
     Some \<lparr>MABArm.campaignId = ''c1'', adSetId = ''s1'', creativeId = None, pulls = 1, totalReward = 3,
           avgReward = 3, ucbScore = PosInfinity, alpha = 2, beta = 1,
           cusumPositive = 5 / 2, cusumNegative = 0, lastUpdated = 7\<rparr>"
proof -
  have h: "redis emptyWorld (mabArmKey ''c1'' ''s1'' ''combined'') = None"
    by (simp add: emptyWorld_def)
  show ?thesis using h first_reward_three [OF h, of 7] by simp
qed

text \<open>C3 as stated asks for both accumulators at 0; the positive one is 2.5.\<close>

theorem first_reward_three_cusum_counterexample:
  "map_option cusumPositive
     (redis (updateArmReward emptyWorld ''c1'' ''s1'' 3 7) (mabArmKey ''c1'' ''s1'' ''combined''))
   = Some (5 / 2)"
  by (simp add: redis_updateArmReward loadArm_def emptyWorld_def updateCUSUM_fst updateCUSUM_snd)

text \<open>
  C4 (as the code has it). On the first observation of an arm the detector fires exactly
  when the reward is above 5.5 or below -5; for a non-negative reward, exactly when it
  is above 5.5. The log row is written exactly then.
\<close>

theorem first_reward_detection:
  "redis w (mabArmKey c a ''combined'') = None \<Longrightarrow>
   snd (updateCUSUM (loadArm w c a now) r) = (11 / 2 < r \<or> r < - 5)
   \<and> agentLog (updateArmReward w c a r now) =
       (if 11 / 2 < r \<or> r < - 5 then agentLog w @ [Cusum_change_detected c a r 0]
        else agentLog w)"
  by (auto simp add: agentLog_updateArmReward loadArm_absent updateCUSUM_snd)

theorem first_reward_detection_witness:
  "redis emptyWorld (mabArmKey ''c1'' ''s1'' ''combined'') = None \<and>
   snd (updateCUSUM (loadArm emptyWorld ''c1'' ''s1'' 7) 3) = (11 / 2 < (3::real) \<or> (3::real) < - 5)
   \<and> agentLog (updateArmReward emptyWorld ''c1'' ''s1'' 3 7) = agentLog emptyWorld"
proof -
  have h: "redis emptyWorld (mabArmKey ''c1'' ''s1'' ''combined'') = None"
    by (simp add: emptyWorld_def)
  show ?thesis using h first_reward_detection [OF h, of 7 3] by simp
qed

text \<open>C4 as stated excludes a detection on the first observation; a reward of 6 is detected.\<close>

theorem first_reward_detection_counterexample:
  "snd (updateCUSUM (loadArm emptyWorld ''c1'' ''s1'' 7) 6)
   \<and> agentLog (updateArmReward emptyWorld ''c1'' ''s1'' 6 7) = [Cusum_change_detected ''c1'' ''s1'' 6 0]"
  by (simp add: agentLog_updateArmReward loadArm_def emptyWorld_def updateCUSUM_snd)

section \<open>Invariants of the stored arms\<close>

text \<open>
  C10. Start from a store with no arm and apply any sequence of reward updates, to any
  arms and with any rewards. Every arm the engine then loads, stored or fresh, has
  \<open>alpha + beta = pulls + 2\<close>.
\<close>

theorem alpha_beta_pulls:
  assumes "redis w = Map.empty"
    and "arm = loadArm (updateArmRewards w calls) c a now"
  shows "alpha arm + beta arm = real (pulls arm) + 2"
  unfolding assms(2)
proof (rule loadArm_invariant)
  fix k arm'
  assume "redis (updateArmRewards w calls) k = Some arm'"
  then show "alpha arm' + beta arm' = real (pulls arm') + 2"
  proof (rule updateArmRewards_invariant [where Q = "\<lambda>r. True" and w = w and calls = calls, rotated -1])
    show "\<forall>(c, a, r, now)\<in>set calls. True" by simp
  qed (use assms(1) in \<open>simp_all add: updateCUSUM_fst\<close>)
qed simp

theorem alpha_beta_pulls_witness:
  "redis emptyWorld = Map.empty \<and>
   alpha (loadArm (updateArmRewards emptyWorld [(''c1'', ''s1'', 3, 7), (''c1'', ''s1'', 1, 8)]) ''c1'' ''s1'' 9)
   + beta (loadArm (updateArmRewards emptyWorld [(''c1'', ''s1'', 3, 7), (''c1'', ''s1'', 1, 8)]) ''c1'' ''s1'' 9)
   = real (pulls (loadArm (updateArmRewards emptyWorld [(''c1'', ''s1'', 3, 7), (''c1'', ''s1'', 1, 8)]) ''c1'' ''s1'' 9)) + 2"
proof -
  have h: "redis emptyWorld = Map.empty" by (simp add: emptyWorld_def)
  show ?thesis
    using h alpha_beta_pulls [OF h refl, where calls = "[(''c1'', ''s1'', 3, 7), (''c1'', ''s1'', 1, 8)]"
        and c = "''c1''" and a = "''s1''" and now = 9]
    by simp
qed

lemma reward_invariant_nonneg:
  assumes "redis w = Map.empty" and "\<forall>(c, a, r, now)\<in>set calls. 0 \<le> r"
  shows "0 \<le> totalReward (loadArm (updateArmRewards w calls) c a now)
     \<and> (pulls (loadArm (updateArmRewards w calls) c a now) = 0 \<longrightarrow>
          totalReward (loadArm (updateArmRewards w calls) c a now) = 0
          \<and> avgReward (loadArm (updateArmRewards w calls) c a now) = 0)
     \<and> (0 < pulls (loadArm (updateArmRewards w calls) c a now) \<longrightarrow>
          avgReward (loadArm (updateArmRewards w calls) c a now) =
            totalReward (loadArm (updateArmRewards w calls) c a now)
            / real (pulls (loadArm (updateArmRewards w calls) c a now)))"
proof (rule loadArm_invariant)
  fix k arm
  assume "redis (updateArmRewards w calls) k = Some arm"
  then show "0 \<le> totalReward arm \<and> (pulls arm = 0 \<longrightarrow> totalReward arm = 0 \<and> avgReward arm = 0)
     \<and> (0 < pulls arm \<longrightarrow> avgReward arm = totalReward arm / real (pulls arm))"
  proof (rule updateArmRewards_invariant [where Q = "\<lambda>r. 0 \<le> r" and w = w and calls = calls, rotated -1])
    show "\<forall>(c, a, r, now)\<in>set calls. 0 \<le> r" by (rule assms(2))
  qed (use assms(1) in \<open>simp_all add: updateCUSUM_fst\<close>)
qed simp

lemma reward_invariant_pos:
  assumes "redis w = Map.empty" and "\<forall>(c, a, r, now)\<in>set calls. 0 < r"
  shows "0 < pulls (loadArm (updateArmRewards w calls) c a now) \<longrightarrow>
          0 < totalReward (loadArm (updateArmRewards w calls) c a now)"
proof (rule loadArm_invariant)
  fix k arm
  assume "redis (updateArmRewards w calls) k = Some arm"
  then have "0 \<le> totalReward arm \<and> (0 < pulls arm \<longrightarrow> 0 < totalReward arm)"
  proof (rule updateArmRewards_invariant [where Q = "\<lambda>r. 0 < r" and w = w and calls = calls, rotated -1])
    show "\<forall>(c, a, r, now)\<in>set calls. 0 < r" by (rule assms(2))
  qed (use assms(1) in \<open>simp_all add: updateCUSUM_fst add_nonneg_pos\<close>)
  then show "0 < pulls arm \<longrightarrow> 0 < totalReward arm" by simp
qed simp

text \<open>
  C8 (as the code has it). Start from a store with no arm and apply any sequence of
  reward updates. When all rewards are non-negative, every arm the engine then loads has
  \<open>pulls = 0 \<longrightarrow> totalReward = 0 \<and> avgReward = 0\<close> and
  \<open>totalReward = 0 \<longrightarrow> avgReward = 0\<close>. When all rewards are positive, the three
  conditions \<open>pulls = 0\<close>, \<open>totalReward = 0\<close> and \<open>avgReward = 0\<close> are equivalent.
\<close>

theorem reward_equivalences:
  assumes "redis w = Map.empty"
    and "arm = loadArm (updateArmRewards w calls) c a now"
  shows "((\<forall>(c', a', r, t)\<in>set calls. 0 \<le> r) \<longrightarrow>
            (pulls arm = 0 \<longrightarrow> totalReward arm = 0 \<and> avgReward arm = 0)
            \<and> (totalReward arm = 0 \<longrightarrow> avgReward arm = 0))
       \<and> ((\<forall>(c', a', r, t)\<in>set calls. 0 < r) \<longrightarrow>
            (pulls arm = 0 \<longleftrightarrow> totalReward arm = 0) \<and> (totalReward arm = 0 \<longleftrightarrow> avgReward arm = 0))"
proof -
  have nonneg: "(pulls arm = 0 \<longrightarrow> totalReward arm = 0 \<and> avgReward arm = 0)
      \<and> (totalReward arm = 0 \<longleftrightarrow> avgReward arm = 0)"
    if "\<forall>(c', a', r, t)\<in>set calls. 0 \<le> r"
    using reward_invariant_nonneg [OF assms(1) that, of c a now] assms(2) by auto
  have pos: "pulls arm = 0 \<longleftrightarrow> totalReward arm = 0"
    if h: "\<forall>(c', a', r, t)\<in>set calls. 0 < r"
  proof -
    have "\<forall>(c', a', r, t)\<in>set calls. 0 \<le> r" using h by fastforce
    then show ?thesis
      using nonneg reward_invariant_pos [OF assms(1) h, of c a now] assms(2) by auto
  qed
  have "\<forall>(c', a', r, t)\<in>set calls. 0 \<le> r" if "\<forall>(c', a', r, t)\<in>set calls. 0 < r"
    using that by fastforce
  with nonneg pos show ?thesis by blast
qed

theorem reward_equivalences_witness:
  "redis emptyWorld = Map.empty
   \<and> list_all (\<lambda>(c', a', r, t). 0 < r) [(''c1'', ''s1'', 3::real, 7::nat), (''c1'', ''s1'', 1, 8)]
   \<and> (pulls (loadArm (updateArmRewards emptyWorld [(''c1'', ''s1'', 3, 7), (''c1'', ''s1'', 1, 8)]) ''c1'' ''s1'' 9) = 0
        \<longleftrightarrow> totalReward (loadArm (updateArmRewards emptyWorld [(''c1'', ''s1'', 3, 7), (''c1'', ''s1'', 1, 8)]) ''c1'' ''s1'' 9) = 0)
   \<and> (totalReward (loadArm (updateArmRewards emptyWorld [(''c1'', ''s1'', 3, 7), (''c1'', ''s1'', 1, 8)]) ''c1'' ''s1'' 9) = 0
        \<longleftrightarrow> avgReward (loadArm (updateArmRewards emptyWorld [(''c1'', ''s1'', 3, 7), (''c1'', ''s1'', 1, 8)]) ''c1'' ''s1'' 9) = 0)"
proof -
  have h: "redis emptyWorld = Map.empty" by (simp add: emptyWorld_def)
  have pos: "\<forall>(c', a', r, t)\<in>set [(''c1'', ''s1'', 3::real, 7::nat), (''c1'', ''s1'', 1, 8)]. 0 < r"
    by simp
  have pos': "list_all (\<lambda>(c', a', r, t). 0 < r) [(''c1'', ''s1'', 3::real, 7::nat), (''c1'', ''s1'', 1, 8)]"
    by simp
  note eq = reward_equivalences [OF h refl, where calls = "[(''c1'', ''s1'', 3, 7), (''c1'', ''s1'', 1, 8)]"
        and c = "''c1''" and a = "''s1''" and now = 9, THEN conjunct2, THEN mp, OF pos]
  from h pos' eq show ?thesis by blast
qed

text \<open>
  C8 as stated allows a reward of 0: after one such update the arm has one pull and a
  total of 0.
\<close>

theorem zero_reward_counterexample:
  "pulls (loadArm (updateArmRewards emptyWorld [(''c1'', ''s1'', 0, 7)]) ''c1'' ''s1'' 8) = 1
   \<and> totalReward (loadArm (updateArmRewards emptyWorld [(''c1'', ''s1'', 0, 7)]) ''c1'' ''s1'' 8) = 0
   \<and> avgReward (loadArm (updateArmRewards emptyWorld [(''c1'', ''s1'', 0, 7)]) ''c1'' ''s1'' 8) = 0"
  by (simp add: loadArm_def redis_updateArmReward emptyWorld_def updateCUSUM_fst)

section \<open>The UCB1 score\<close>















section \<open>The allocation cycle\<close>

lemma length_scoreArms: "length (scoreArms thompsonSample arms) = length arms"
  by (simp add: scoreArms_def)

lemma length_decisions: "length (decisions B scoredArms) = length scoredArms"
  by (simp add: decisions_def)

lemma scoreArms_nth:
  "i < length arms \<Longrightarrow>
   scoreArms thompsonSample arms ! i =
     (if pulls (arms ! i) < COLD_START_THRESHOLD
      then (arms ! i, thompsonSample i, THOMPSON_SAMPLING)
      else (arms ! i, calculateUCB1 (arms ! i) (foldl (\<lambda>s a. s + pulls a) 0 arms), UCB1))"
  by (simp add: scoreArms_def scoreArm_def nth_enumerate_eq Let_def)

lemma decisions_nth:
  "i < length scoredArms \<Longrightarrow>
   decisions B scoredArms ! i =
     \<lparr>AllocationDecision.campaignId = MABArm.campaignId (fst (scoredArms ! i)),
      adSetId = MABArm.adSetId (fst (scoredArms ! i)),
      allocatedBudgetPaisa =
        Math_max (Math_round (js_mul (Num B)
           (js_div (normalizedScore (fst (snd (scoredArms ! i)))) (totalScore scoredArms))))
          (Num MIN_BUDGET_PAISA),
      ucbScore = fst (snd (scoredArms ! i)),
      reason = snd (snd (scoredArms ! i))\<rparr>"
  by (simp add: decisions_def decide_def Let_def)

lemma fst_runMABAllocation:
  "fst (runMABAllocation w user B thompsonSample now today) =
     decisions B (scoreArms thompsonSample
       (loadArms w (filter (\<lambda>c. userId c = user \<and> status c = ACTIVE) (campaignTable w)) now))"
proof -
  have none: "decisions B (scoreArms thompsonSample []) = []"
    by (simp add: decisions_def scoreArms_def)
  have "loadArms w [] now = []"
    by (simp add: loadArms_def)
  with none show ?thesis
    by (simp add: runMABAllocation_def Let_def)
qed

lemma cycle_scoring:
  fixes w :: world and user :: string and B :: real and thompsonSample :: "nat \<Rightarrow> jsnum"
    and now today :: nat
  defines "arms \<equiv> loadArms w (filter (\<lambda>c. userId c = user \<and> status c = ACTIVE) (campaignTable w)) now"
  defines "ds \<equiv> fst (runMABAllocation w user B thompsonSample now today)"
  shows "length ds = length arms
     \<and> (\<forall>i<length arms.
           AllocationDecision.campaignId (ds ! i) = MABArm.campaignId (arms ! i)
           \<and> AllocationDecision.adSetId (ds ! i) = MABArm.adSetId (arms ! i)
           \<and> AllocationDecision.ucbScore (ds ! i) =
               (if pulls (arms ! i) < 30 then thompsonSample i
                else calculateUCB1 (arms ! i) (sum_list (map pulls arms)))
           \<and> reason (ds ! i) = (if pulls (arms ! i) < 30 then THOMPSON_SAMPLING else UCB1))"
proof -
  have tp: "foldl (\<lambda>s a. s + pulls a) 0 xs = sum_list (map pulls xs)" for xs :: "MABArm list"
  proof -
    have "foldl (\<lambda>s a. s + pulls a) n xs = n + sum_list (map pulls xs)" for n
      by (induction xs arbitrary: n) simp_all
    then show ?thesis by simp
  qed
  show ?thesis
    unfolding ds_def arms_def fst_runMABAllocation
    by (simp add: length_decisions length_scoreArms decisions_nth scoreArms_nth tp
        COLD_START_THRESHOLD_def)
qed

text \<open>
  C1. An arm with no pulls is to be scored \<open>+\<infinity>\<close> by UCB1: the first branch of
  \<open>calculateUCB1\<close> returns it (always explore unvisited arms), and the allocator
  replaces an infinite score by 2. The cycle does not reach that branch: the cold-start
  test comes first, so for a campaign with two ad sets and no stored arm both arms have
  0 pulls, both decisions carry the Thompson draw as score and the reason
  \<open>THOMPSON_SAMPLING\<close>, while \<open>calculateUCB1\<close> on the same arms gives \<open>+\<infinity>\<close>.
\<close>

theorem unvisited_arm_cycle:
  "map pulls (loadArms demoWorld (filter (\<lambda>c. userId c = ''u1'' \<and> status c = ACTIVE) (campaignTable demoWorld)) 7) = [0, 0]
   \<and> map reason (fst (runMABAllocation demoWorld ''u1'' 5000000 halfSamples 7 1))
       = [THOMPSON_SAMPLING, THOMPSON_SAMPLING]
   \<and> map AllocationDecision.ucbScore (fst (runMABAllocation demoWorld ''u1'' 5000000 halfSamples 7 1))
       = [Num (1 / 2), Num (1 / 2)]
   \<and> calculateUCB1 (loadArm demoWorld ''c1'' ''s1'' 7) 0 = PosInfinity
   \<and> calculateUCB1 (loadArm demoWorld ''c1'' ''s2'' 7) 0 = PosInfinity"
  by (simp add: fst_runMABAllocation demoWorld_def loadArms_def loadArm_def decisions_def
      scoreArms_def scoreArm_def enumerate_eq_zip decide_def COLD_START_THRESHOLD_def halfSamples_def
      Let_def calculateUCB1_def)

lemma double_seven_tenths: "double (7 / 10) = Num (3152519739159347 / 4503599627370496)"
  by (simp add: double_eval [where e = "- 1"] round_even_def power_int_minus)

lemma double_three_tenths: "double (3 / 10) = Num (5404319552844595 / 18014398509481984)"
  by (simp add: double_eval [where e = "- 2"] round_even_def power_int_minus)

lemma double_small_values:
  "double (1 / 2) = Num (1 / 2)" "double 1 = Num 1" "double (7 / 2) = Num (7 / 2)"
  "double 5 = Num 5" "double (7 / 8) = Num (7 / 8)" "double (5 / 4) = Num (5 / 4)"
  by (simp_all add: double_eval [where e = "- 1"] double_eval [where e = 0]
      double_eval [where e = 1] double_eval [where e = 2] round_even_def power_int_minus)

lemma share_near:
  fixes n :: int and y d :: real
  assumes n: "1 \<le> n" "n \<le> 100000000000000"
    and d: "0 \<le> d" "d \<le> 1" and c: "\<bar>c - d\<bar> \<le> 1 / (5 * 2 ^ 52)"
    and y: "y = nearest64 (of_int n * d)" and big: "1 \<le> of_int n * d"
  shows "\<bar>y - c * of_int n\<bar> \<le> 1 / 20"
proof -
  let ?z = "of_int n * d"
  have "(2::real) powi (- 1022) \<le> 1" by (simp add: power_int_minus inverse_le_1_iff)
  then have "2 powi (- 1022) \<le> \<bar>?z\<bar>" using big by linarith
  then have "\<bar>nearest64 ?z - ?z\<bar> \<le> \<bar>?z\<bar> / 2 ^ 53" by (rule nearest64_relative)
  moreover have "\<bar>?z\<bar> \<le> of_int n" using n d by (simp add: mult_left_le abs_mult)
  ultimately have a: "\<bar>y - ?z\<bar> \<le> of_int n / 2 ^ 53"
    using y by (smt (verit) divide_right_mono zero_le_numeral zero_le_power)
  have "\<bar>?z - c * of_int n\<bar> = of_int n * \<bar>c - d\<bar>"
    using n by (smt (verit) abs_mult abs_of_nonneg mult.commute of_int_nonneg right_diff_distrib abs_minus_commute)
  also have "\<dots> \<le> of_int n * (1 / (5 * 2 ^ 52))"
    using c n by (intro mult_left_mono) simp_all
  finally have b: "\<bar>?z - c * of_int n\<bar> \<le> of_int n / (5 * 2 ^ 52)" by simp
  have "(of_int n :: real) \<le> 100000000000000" using n(2) by (metis of_int_le_iff of_int_numeral)
  then have "(of_int n :: real) / 2 ^ 53 \<le> 1 / 80" and "(of_int n :: real) / (5 * 2 ^ 52) \<le> 1 / 200"
    by simp_all
  with a b show ?thesis by linarith
qed

lemma round_share:
  fixes n :: int and y :: real
  assumes "\<bar>y - 7 / 10 * of_int n\<bar> \<le> 1 / 20"
  shows "\<bar>of_int \<lfloor>y + 1 / 2\<rfloor> - 7 / 10 * (of_int n :: real)\<bar> \<le> 1 / 2"
proof -
  let ?k = "\<lfloor>y + 1 / 2\<rfloor>"
  have "of_int ?k \<le> y + 1 / 2" and "y + 1 / 2 < of_int ?k + 1" by linarith+
  with assms have "real_of_int (10 * ?k - 7 * n) < 6" and "- 6 < real_of_int (10 * ?k - 7 * n)"
    by (simp_all; linarith)+
  then have "10 * ?k - 7 * n < 6" and "- 6 < 10 * ?k - 7 * n"
    by linarith+
  then have "10 * ?k - 7 * n \<le> 5" and "- 5 \<le> 10 * ?k - 7 * n" by simp_all
  then have "real_of_int (10 * ?k - 7 * n) \<le> 5" and "- 5 \<le> real_of_int (10 * ?k - 7 * n)"
    by (metis of_int_le_iff of_int_numeral, metis of_int_le_iff of_int_minus of_int_numeral)
  then have "10 * real_of_int ?k - 7 * real_of_int n \<le> 5"
    and "- 5 \<le> 10 * real_of_int ?k - 7 * real_of_int n"
    by simp_all
  then show ?thesis by linarith
qed

text \<open>
  C5 (as the code has it). For two arms scored 3.5 and 1.5 the total score is 5 and the
  rounded shares of a budget of 1,000,000 are 700,000 and 300,000, but both are below the
  floor of 1,000,000 paisa and both arms are allocated exactly the floor. For every
  integer budget from 1,428,573 to \<open>10 ^ 14\<close> the higher-scored arm is allocated strictly
  more than the other, and its allocation is within one half of 70% of the budget.
\<close>

theorem two_arm_allocation:
  fixes armA armB :: MABArm and rA rB :: Reason and n :: int
  defines "scored \<equiv> [(armA, Num (7 / 2), rA), (armB, Num (3 / 2), rB)]"
  shows "totalScore scored = Num 5
     \<and> Math_round (js_mul (Num 1000000) (js_div (normalizedScore (Num (7 / 2))) (totalScore scored))) = Num 700000
     \<and> Math_round (js_mul (Num 1000000) (js_div (normalizedScore (Num (3 / 2))) (totalScore scored))) = Num 300000
     \<and> map allocatedBudgetPaisa (decisions 1000000 scored) = [Num 1000000, Num 1000000]
     \<and> (1428573 \<le> n \<and> n \<le> 100000000000000 \<longrightarrow>
          (\<exists>x y. map allocatedBudgetPaisa (decisions (of_int n) scored) = [Num x, Num y]
                 \<and> y < x \<and> \<bar>x - 7 / 10 * of_int n\<bar> \<le> 1 / 2))"
proof -
  let ?d7 = "3152519739159347 / 4503599627370496 :: real"
  let ?d3 = "5404319552844595 / 18014398509481984 :: real"
  have tot: "totalScore scored = Num 5"
    by (simp add: scored_def totalScore_def normalizedScore_def double_small_values)
  have q7: "js_div (normalizedScore (Num (7 / 2))) (totalScore scored) = Num ?d7"
    using double_seven_tenths by (simp add: tot normalizedScore_def)
  have q3: "js_div (normalizedScore (Num (3 / 2))) (totalScore scored) = Num ?d3"
    using double_three_tenths by (simp add: tot normalizedScore_def)
  have m7: "double (1000000 * ?d7) = Num 700000"
    by (simp add: double_eval [where e = 19] round_even_def power_int_minus)
  have m3: "double (1000000 * ?d3) = Num 300000"
    by (simp add: double_eval [where e = 18] round_even_def power_int_minus)
  have r1: "Math_round (js_mul (Num 1000000) (js_div (normalizedScore (Num (7 / 2))) (totalScore scored))) = Num 700000"
    using m7 by (simp add: q7)
  have r2: "Math_round (js_mul (Num 1000000) (js_div (normalizedScore (Num (3 / 2))) (totalScore scored))) = Num 300000"
    using m3 by (simp add: q3)
  have alloc: "map allocatedBudgetPaisa (decisions B scored) =
      [Math_max (Math_round (js_mul (Num B) (js_div (normalizedScore (Num (7 / 2))) (totalScore scored)))) (Num 1000000),
       Math_max (Math_round (js_mul (Num B) (js_div (normalizedScore (Num (3 / 2))) (totalScore scored)))) (Num 1000000)]"
    for B
    by (simp add: scored_def decisions_def decide_def Let_def MIN_BUDGET_PAISA_def)
  have floor: "map allocatedBudgetPaisa (decisions 1000000 scored) = [Num 1000000, Num 1000000]"
    unfolding alloc r1 r2 by simp
  have big: "\<exists>x y. map allocatedBudgetPaisa (decisions (of_int n) scored) = [Num x, Num y]
                 \<and> y < x \<and> \<bar>x - 7 / 10 * of_int n\<bar> \<le> 1 / 2"
    if h: "1428573 \<le> n \<and> n \<le> 100000000000000"
  proof -
    let ?B = "of_int n :: real"
    let ?y7 = "nearest64 (?B * ?d7)" and ?y3 = "nearest64 (?B * ?d3)"
    have B: "1428573 \<le> ?B" "?B \<le> 100000000000000"
      using h by (metis of_int_le_iff of_int_numeral)+
    have fin7: "double (?B * ?d7) = Num ?y7" and fin3: "double (?B * ?d3) = Num ?y3"
      using B by (intro double_finite; simp)+
    have n7: "\<bar>?y7 - 7 / 10 * ?B\<bar> \<le> 1 / 20"
      using share_near [where n = n and d = ?d7 and c = "7 / 10" and y = ?y7] h B by simp
    have n3: "\<bar>?y3 - 3 / 10 * ?B\<bar> \<le> 1 / 20"
      using share_near [where n = n and d = ?d3 and c = "3 / 10" and y = ?y3] h B by simp
    let ?k7 = "\<lfloor>?y7 + 1 / 2\<rfloor>" and ?k3 = "\<lfloor>?y3 + 1 / 2\<rfloor>"
    have near: "\<bar>of_int ?k7 - 7 / 10 * ?B\<bar> \<le> 1 / 2"
      using n7 by (rule round_share)
    have lo7: "?y7 - 1 / 2 < of_int ?k7" and hi3: "of_int ?k3 \<le> ?y3 + 1 / 2" by linarith+
    have above: "(1000000::real) < of_int ?k7" using near B by linarith
    have less: "(of_int ?k3 :: real) < of_int ?k7" using lo7 hi3 n7 n3 B by linarith
    have "map allocatedBudgetPaisa (decisions ?B scored) =
        [Num (max (of_int ?k7) 1000000), Num (max (of_int ?k3) 1000000)]"
      unfolding alloc q7 q3 using fin7 fin3 by simp
    moreover have "max (of_int ?k7) (1000000::real) = of_int ?k7" using above by simp
    moreover have "max (of_int ?k3) (1000000::real) < of_int ?k7" using above less by simp
    ultimately show ?thesis using near by simp
  qed
  from tot r1 r2 floor big show ?thesis by blast
qed

theorem two_arm_allocation_witness:
  "(1428573::int) \<le> 10000000 \<and> (10000000::int) \<le> 100000000000000
   \<and> (\<exists>x y. map allocatedBudgetPaisa
          (decisions (of_int 10000000) [(sampleArm, Num (7 / 2), UCB1), (sampleArm\<lparr>MABArm.adSetId := ''s2''\<rparr>, Num (3 / 2), UCB1)])
          = [Num x, Num y] \<and> y < x \<and> \<bar>x - 7 / 10 * of_int 10000000\<bar> \<le> 1 / 2)"
  using two_arm_allocation [where armA = sampleArm and armB = "sampleArm\<lparr>MABArm.adSetId := ''s2''\<rparr>"
      and rA = UCB1 and rB = UCB1 and n = 10000000]
  by simp

text \<open>C5 as stated, on a budget of 1,000,000: both arms get the same amount, the whole budget each.\<close>

theorem two_arm_floor_counterexample:
  "map allocatedBudgetPaisa
     (decisions 1000000 [(sampleArm, Num (7 / 2), UCB1), (sampleArm\<lparr>MABArm.adSetId := ''s2''\<rparr>, Num (3 / 2), UCB1)])
   = [Num 1000000, Num 1000000]"
proof -
  have "double (1000000 * (3152519739159347 / 4503599627370496)) = Num 700000"
    by (simp add: double_eval [where e = 19] round_even_def power_int_minus)
  moreover have "double (1000000 * (5404319552844595 / 18014398509481984)) = Num 300000"
    by (simp add: double_eval [where e = 18] round_even_def power_int_minus)
  ultimately show ?thesis
    using double_seven_tenths double_three_tenths
    by (simp add: decisions_def decide_def totalScore_def normalizedScore_def MIN_BUDGET_PAISA_def Let_def
        double_small_values)
qed

lemma totalScore_foldl:
  "totalScore scoredArms =
     foldl js_add (Num 0) (map (\<lambda>s. if isFinite s then s else Num 2) (map (\<lambda>a. fst (snd a)) scoredArms))"
  by (simp add: totalScore_def normalizedScore_def foldl_map)

lemma scores_of_scoreArms:
  "map (\<lambda>a. fst (snd a)) (scoreArms thompsonSample arms) =
     map (\<lambda>(i, arm). if pulls arm < 30 then thompsonSample i
                       else calculateUCB1 arm (sum_list (map pulls arms))) (enumerate 0 arms)"
proof -
  have "foldl (\<lambda>s a. s + pulls a) n xs = n + sum_list (map pulls xs)" for n and xs :: "MABArm list"
    by (induction xs arbitrary: n) simp_all
  then have tp: "foldl (\<lambda>s a. s + pulls a) 0 arms = sum_list (map pulls arms)" by simp
  show ?thesis
    by (simp add: scoreArms_def scoreArm_def Let_def tp COLD_START_THRESHOLD_def split_def)
qed

lemma demo_arms:
  "loadArms demoWorld (filter (\<lambda>c. userId c = ''u1'' \<and> status c = ACTIVE) (campaignTable demoWorld)) now
    = [\<lparr>MABArm.campaignId = ''c1'', adSetId = ''s1'', creativeId = None, pulls = 0, totalReward = 0,
        avgReward = 0, ucbScore = PosInfinity, alpha = 1, beta = 1,
        cusumPositive = 0, cusumNegative = 0, lastUpdated = now\<rparr>,
       \<lparr>MABArm.campaignId = ''c1'', adSetId = ''s2'', creativeId = None, pulls = 0, totalReward = 0,
        avgReward = 0, ucbScore = PosInfinity, alpha = 1, beta = 1,
        cusumPositive = 0, cusumNegative = 0, lastUpdated = now\<rparr>]"
  by (simp add: demoWorld_def loadArms_def loadArm_def)

lemma demo_half_budgets:
  "map allocatedBudgetPaisa (fst (runMABAllocation demoWorld ''u1'' 1000000 halfSamples now today))
     = [Num 1000000, Num 1000000]"
proof -
  have "double 500000 = Num 500000"
    by (simp add: double_eval [where e = 18] round_even_def power_int_minus)
  then show ?thesis
    by (simp add: fst_runMABAllocation demo_arms decisions_def scoreArms_def scoreArm_def
        enumerate_eq_zip decide_def COLD_START_THRESHOLD_def halfSamples_def Let_def totalScore_def
        normalizedScore_def MIN_BUDGET_PAISA_def double_small_values)
qed

text \<open>
  C6 (as the code has it). A cycle returns one decision per loaded arm, whatever the
  budget. With the score of an arm as the cycle computes it, a score that is not finite
  replaced by 2, and the total as the sum of these from the left, the budget of the arm
  is \<open>Math.max(Math.round(totalBudget * (normalized / total)), 1000000)\<close>: the quotient is
  rounded to a double before the product, and the product before \<open>Math.round\<close>. Nothing
  is taken back from the other arms: for some inputs the budgets sum to more than the
  total budget (two fresh arms on a budget of 1,000,000 sum to 2,000,000).
\<close>

theorem allocation_floor_per_arm:
  fixes w :: world and user :: string and B :: real and thompsonSample :: "nat \<Rightarrow> jsnum"
    and now today :: nat
  defines "arms \<equiv> loadArms w (filter (\<lambda>c. userId c = user \<and> status c = ACTIVE) (campaignTable w)) now"
  defines "scores \<equiv> map (\<lambda>(i, arm). if pulls arm < 30 then thompsonSample i
                       else calculateUCB1 arm (sum_list (map pulls arms))) (enumerate 0 arms)"
  defines "normalized \<equiv> map (\<lambda>s. if isFinite s then s else Num 2) scores"
  defines "ds \<equiv> fst (runMABAllocation w user B thompsonSample now today)"
  shows "length ds = length arms
     \<and> (\<forall>i<length arms.
           allocatedBudgetPaisa (ds ! i) =
             Math_max (Math_round (js_mul (Num B)
                (js_div (normalized ! i) (foldl js_add (Num 0) normalized))))
               (Num 1000000))
     \<and> (\<exists>w' user' B' thompsonSample' total.
           foldl js_add (Num 0)
             (map allocatedBudgetPaisa (fst (runMABAllocation w' user' B' thompsonSample' now today)))
           = Num total \<and> B' < total)"
proof -
  have len: "length ds = length arms"
    unfolding ds_def arms_def fst_runMABAllocation
    by (simp add: length_decisions length_scoreArms)
  have norm: "normalized = map (\<lambda>s. if isFinite s then s else Num 2)
      (map (\<lambda>a. fst (snd a)) (scoreArms thompsonSample arms))"
    unfolding normalized_def scores_def by (simp only: scores_of_scoreArms)
  have each: "\<forall>i<length arms.
           allocatedBudgetPaisa (ds ! i) =
             Math_max (Math_round (js_mul (Num B)
                (js_div (normalized ! i) (foldl js_add (Num 0) normalized))))
               (Num 1000000)"
    unfolding norm ds_def fst_runMABAllocation arms_def [symmetric]
    by (simp add: decisions_nth length_scoreArms MIN_BUDGET_PAISA_def totalScore_foldl normalizedScore_def)
  have "double 1000000 = Num 1000000" and "double 2000000 = Num 2000000"
    by (simp_all add: double_eval [where e = 19] double_eval [where e = 20] round_even_def power_int_minus)
  then have over: "foldl js_add (Num 0)
          (map allocatedBudgetPaisa (fst (runMABAllocation demoWorld ''u1'' 1000000 halfSamples now today)))
        = Num 2000000 \<and> (1000000::real) < 2000000"
    by (simp add: demo_half_budgets)
  have ex: "\<exists>w' user' B' thompsonSample' total.
           foldl js_add (Num 0)
             (map allocatedBudgetPaisa (fst (runMABAllocation w' user' B' thompsonSample' now today)))
           = Num total \<and> B' < total"
    using over by blast
  from len each ex show ?thesis by blast
qed

theorem allocation_floor_per_arm_witness:
  "length (fst (runMABAllocation demoWorld ''u1'' 1000000 halfSamples 7 1)) = 2
   \<and> allocatedBudgetPaisa (fst (runMABAllocation demoWorld ''u1'' 1000000 halfSamples 7 1) ! 0) = Num 1000000
   \<and> allocatedBudgetPaisa (fst (runMABAllocation demoWorld ''u1'' 1000000 halfSamples 7 1) ! 1) = Num 1000000"
proof -
  have "double 500000 = Num 500000"
    by (simp add: double_eval [where e = 18] round_even_def power_int_minus)
  then show ?thesis
    using allocation_floor_per_arm [where w = demoWorld and user = "''u1''" and now = 7
        and B = 1000000 and thompsonSample = halfSamples and today = 1]
    by (simp add: demo_arms All_less_Suc enumerate_eq_zip halfSamples_def double_small_values)
qed

text \<open>
  C6 as stated gives \<open>max (round (totalBudget * normalized / total)) 1000000\<close>, which is
  1,000,003 for a budget of 1,428,575 and draws of 7/8 and 3/8 (the share is exactly
  1,000,002.5); the cycle allocates 1,000,002, because the quotient 0.7 is rounded down
  to a double before the product.
\<close>

theorem allocation_rounding_counterexample:
  "map allocatedBudgetPaisa (fst (runMABAllocation demoWorld ''u1'' 1428575 unevenSamples 7 1))
     = [Num 1000002, Num 1000000]
   \<and> max (of_int (round (1428575 * (7 / 8) / (7 / 8 + 3 / 8) :: real))) (1000000::real) = 1000003"
proof -
  have a: "double (1428575 * (3152519739159347 / 4503599627370496)) = Num (8589956066836479 / 8589934592)"
    by (simp add: double_eval [where e = 19] round_even_def power_int_minus)
  have b: "double (1428575 * (5404319552844595 / 18014398509481984)) = Num (857145 / 2)"
    by (simp add: double_eval [where e = 18] round_even_def power_int_minus)
  have c: "double (7 / 8 / (5 / 4)) = Num (3152519739159347 / 4503599627370496)"
    using double_seven_tenths by simp
  have d: "double (3 / 8 / (5 / 4)) = Num (5404319552844595 / 18014398509481984)"
    using double_three_tenths by simp
  have "map allocatedBudgetPaisa (fst (runMABAllocation demoWorld ''u1'' 1428575 unevenSamples 7 1))
     = [Num 1000002, Num 1000000]"
    using a b c d
    by (simp add: fst_runMABAllocation demo_arms decisions_def scoreArms_def scoreArm_def
        enumerate_eq_zip decide_def COLD_START_THRESHOLD_def unevenSamples_def Let_def totalScore_def
        normalizedScore_def MIN_BUDGET_PAISA_def double_small_values)
  moreover have "max (of_int (round (1428575 * (7 / 8) / (7 / 8 + 3 / 8) :: real))) (1000000::real) = 1000003"
    by (simp add: round_def)
  ultimately show ?thesis by simp
qed

end
